theory Spec2Isabelle
  imports
    Complex_Main
    "HOL-Library.Char_ord"
    "HOL-Library.List_Lexorder"
    "HOL-Library.Product_Lexorder"
    "HOL-Library.Option_ord"
begin

section \<open>The EV dashboard script (app.py): data model\<close>

text \<open>
  The script is one top-level sequence of pandas expressions over a single table.
  A table is a list of rows in file order; a row keeps the six columns the script
  reads. A cell that pandas holds as NaN is \<open>None\<close>. Finite numeric cells are
  rationals (the script only compares and counts them); a cell holding an infinity is
  outside the model. Strings are ordered as Python orders them: lexicographically by
  character code.
\<close>

datatype error = FileNotFoundError | EmptyDataError | ParserError | ValueError | TypeError

text \<open>What \<open>pd.read_csv\<close> leaves in a cell of a column that is to be numeric.\<close>

datatype cell = Blank | Number rat | Text string

record raw_row =
  raw_Model_Year :: cell
  raw_Electric_Vehicle_Type :: "string option"
  raw_City :: "string option"
  raw_Make :: "string option"
  raw_Base_MSRP :: cell
  raw_Electric_Range :: cell

record row =
  Model_Year :: "rat option"
  Electric_Vehicle_Type :: "string option"
  City :: "string option"
  Make :: "string option"
  Base_MSRP :: "rat option"
  Electric_Range :: "rat option"

section \<open>Loading (lines 31-42)\<close>

text \<open>
  \<open>pd.to_numeric(col, errors="coerce")\<close>, cell by cell: a number stays, a blank is NaN,
  and a text is handed to the library's number parser \<open>parse\<close> (a parameter of the
  model); a text that does not parse becomes NaN and nothing is raised.
\<close>

definition to_numeric :: "(string \<Rightarrow> rat option) \<Rightarrow> cell \<Rightarrow> rat option" where
  "to_numeric parse c = (case c of Blank \<Rightarrow> None | Number x \<Rightarrow> Some x | Text s \<Rightarrow> parse s)"

definition coerce_row :: "(string \<Rightarrow> rat option) \<Rightarrow> raw_row \<Rightarrow> row" where
  "coerce_row parse r =
     \<lparr> Model_Year = to_numeric parse (raw_Model_Year r),
       Electric_Vehicle_Type = raw_Electric_Vehicle_Type r,
       City = raw_City r,
       Make = raw_Make r,
       Base_MSRP = to_numeric parse (raw_Base_MSRP r),
       Electric_Range = to_numeric parse (raw_Electric_Range r) \<rparr>"

text \<open>\<open>df.dropna(subset=["Model Year"])\<close>.\<close>

definition dropna_Model_Year :: "row list \<Rightarrow> row list" where
  "dropna_Model_Year df = filter (\<lambda>r. Model_Year r \<noteq> None) df"

text \<open>
  \<open>load_data(path)\<close>. The first argument is \<open>pd.read_csv\<close> on the machine the script
  runs on: for a path it raises or gives the rows of a frame. The frame has the columns
  the input file is required to have (specification, section 6), so the column lookups of
  lines 35-37 find their column; a file without them is outside the model.
\<close>

definition load_data ::
  "(string \<Rightarrow> error + raw_row list) \<Rightarrow> (string \<Rightarrow> rat option) \<Rightarrow> string \<Rightarrow> error + row list" where
  "load_data read_csv parse path =
     (case read_csv path of
        Inl e \<Rightarrow> Inl e
      | Inr df \<Rightarrow> Inr (dropna_Model_Year (map (coerce_row parse) df)))"

section \<open>Missing values\<close>

text \<open>The values of a column that are not NaN, in order (\<open>Series.dropna()\<close>).\<close>

fun dropna :: "'a option list \<Rightarrow> 'a list" where
  "dropna [] = []"
| "dropna (None # s) = dropna s"
| "dropna (Some x # s) = x # dropna s"

section \<open>Filtering (lines 85-94)\<close>

text \<open>The values of the four sidebar widgets.\<close>

record filter_state =
  tahun_range :: "int \<times> int"
  selected_types :: "string list"
  selected_cities :: "string list"
  selected_makes :: "string list"

text \<open>\<open>Series.isin(values)\<close> for a list of strings: NaN is in no such list.\<close>

definition isin :: "'a option \<Rightarrow> 'a list \<Rightarrow> bool" where
  "isin c vs = (case c of None \<Rightarrow> False | Some x \<Rightarrow> x \<in> set vs)"

text \<open>\<open>col >= n\<close> and \<open>col <= n\<close>: every comparison with NaN is false.\<close>

definition ge_num :: "rat option \<Rightarrow> int \<Rightarrow> bool" where
  "ge_num c n = (case c of None \<Rightarrow> False | Some x \<Rightarrow> of_int n \<le> x)"

definition le_num :: "rat option \<Rightarrow> int \<Rightarrow> bool" where
  "le_num c n = (case c of None \<Rightarrow> False | Some x \<Rightarrow> x \<le> of_int n)"

definition df_filtered :: "row list \<Rightarrow> filter_state \<Rightarrow> row list" where
  "df_filtered df fs =
     (let d0 = filter (\<lambda>r. ge_num (Model_Year r) (fst (tahun_range fs)) \<and>
                           le_num (Model_Year r) (snd (tahun_range fs)) \<and>
                           isin (Electric_Vehicle_Type r) (selected_types fs)) df;
          d1 = (if selected_cities fs \<noteq> []
                then filter (\<lambda>r. isin (City r) (selected_cities fs)) d0 else d0);
          d2 = (if selected_makes fs \<noteq> []
                then filter (\<lambda>r. isin (Make r) (selected_makes fs)) d1 else d1)
      in d2)"

text \<open>
  The predicate of the specification (section 4.2), in its words: a conjunction of the
  year range, the type set, and the city and make sets when these are not empty.
\<close>

definition year_in_range :: "filter_state \<Rightarrow> row \<Rightarrow> bool" where
  "year_in_range fs r =
     (case Model_Year r of None \<Rightarrow> False
      | Some y \<Rightarrow> of_int (fst (tahun_range fs)) \<le> y \<and> y \<le> of_int (snd (tahun_range fs)))"

definition satisfies :: "filter_state \<Rightarrow> row \<Rightarrow> bool" where
  "satisfies fs r =
     (year_in_range fs r \<and>
      isin (Electric_Vehicle_Type r) (selected_types fs) \<and>
      (selected_cities fs \<noteq> [] \<longrightarrow> isin (City r) (selected_cities fs)) \<and>
      (selected_makes fs \<noteq> [] \<longrightarrow> isin (Make r) (selected_makes fs)))"

section \<open>Aggregations\<close>

text \<open>The distinct values of a list in order of first occurrence (\<open>Series.unique()\<close>).\<close>

fun unique :: "'a list \<Rightarrow> 'a list" where
  "unique [] = []"
| "unique (x # xs) = x # unique (filter (\<lambda>y. y \<noteq> x) xs)"

text \<open>
  \<open>Series.value_counts()\<close>: NaN is dropped, each distinct value gets the number of its
  occurrences, and the entries are sorted by count, largest first; entries with equal
  counts stay in order of first occurrence.
\<close>

definition value_counts :: "'a option list \<Rightarrow> ('a \<times> nat) list" where
  "value_counts s =
     (let vals = dropna s
      in sort_key (\<lambda>(k, c). - int c) (map (\<lambda>k. (k, count_list vals k)) (unique vals)))"

text \<open>\<open>Series.nlargest(n)\<close> (keep="first"): the first \<open>n\<close> of the stable descending sort.\<close>

definition nlargest :: "nat \<Rightarrow> ('a \<times> nat) list \<Rightarrow> ('a \<times> nat) list" where
  "nlargest n s = take n (sort_key (\<lambda>(k, c). - int c) s)"

text \<open>Line 101, line 357 and line 187.\<close>

definition city_counts :: "row list \<Rightarrow> (string \<times> nat) list" where
  "city_counts v = nlargest 10 (value_counts (map City v))"

definition makes_counts :: "row list \<Rightarrow> (string \<times> nat) list" where
  "makes_counts v = nlargest 10 (value_counts (map Make v))"

definition type_counts :: "row list \<Rightarrow> (string \<times> nat) list" where
  "type_counts v = value_counts (map Electric_Vehicle_Type v)"

text \<open>Lines 139-148.\<close>

definition top10_cities_main :: "row list \<Rightarrow> string list" where
  "top10_cities_main v = map fst (nlargest 10 (value_counts (map City v)))"

definition df_top10 :: "row list \<Rightarrow> row list" where
  "df_top10 v = filter (\<lambda>r. isin (City r) (top10_cities_main v)) v"

text \<open>
  \<open>groupby(keys).size()\<close>: rows with NaN in a key are dropped, the groups are the distinct
  keys in ascending order, each with the number of its rows.
\<close>

definition group_key :: "row \<Rightarrow> (rat \<times> string) option" where
  "group_key r =
     (case Model_Year r of None \<Rightarrow> None
      | Some y \<Rightarrow> (case City r of None \<Rightarrow> None | Some c \<Rightarrow> Some (y, c)))"

definition groupby_size :: "'k::linorder option list \<Rightarrow> ('k \<times> nat) list" where
  "groupby_size ks =
     (let vals = dropna ks in map (\<lambda>k. (k, count_list vals k)) (sort (unique vals)))"

definition growth :: "row list \<Rightarrow> (rat \<times> string \<times> nat) list" where
  "growth v = map (\<lambda>((y, c), n). (y, c, n)) (groupby_size (map group_key (df_top10 v)))"

text \<open>Lines 335-345: one box trace per type, named by the type, over the MSRP column.\<close>

definition df_type_price :: "row list \<Rightarrow> row list" where
  "df_type_price v = filter (\<lambda>r. Base_MSRP r \<noteq> None) v"

text \<open>
  Python's \<open>sorted\<close> on what \<open>unique()\<close> returns: comparing NaN (a float) with a string
  raises \<open>TypeError\<close>.
\<close>

definition sorted_py :: "string option list \<Rightarrow> error + string option list" where
  "sorted_py xs = (if None \<in> set xs \<and> dropna xs \<noteq> [] then Inl TypeError else Inr (sort xs))"

text \<open>\<open>col == tipe\<close>: NaN equals nothing.\<close>

definition eq_cell :: "'a option \<Rightarrow> 'a option \<Rightarrow> bool" where
  "eq_cell a b = (case a of None \<Rightarrow> False | Some x \<Rightarrow> b = Some x)"

definition fig_box_type :: "row list \<Rightarrow> error + (string option \<times> rat option list) list" where
  "fig_box_type v =
     (case sorted_py (unique (map Electric_Vehicle_Type (df_type_price v))) of
        Inl e \<Rightarrow> Inl e
      | Inr ts \<Rightarrow>
          Inr (map (\<lambda>tipe. (tipe, map Base_MSRP
                                   (filter (\<lambda>r. eq_cell (Electric_Vehicle_Type r) tipe)
                                           (df_type_price v)))) ts))"

section \<open>The scenario of the specification (section 8)\<close>

definition ex_r1 :: row where
  "ex_r1 = \<lparr> Model_Year = Some 2020, Electric_Vehicle_Type = Some ''BEV'',
             City = Some ''Seattle'', Make = Some ''Tesla'',
             Base_MSRP = Some 40000, Electric_Range = None \<rparr>"

definition ex_r2 :: row where
  "ex_r2 = \<lparr> Model_Year = Some 2020, Electric_Vehicle_Type = Some ''PHEV'',
             City = Some ''Bellevue'', Make = Some ''Toyota'',
             Base_MSRP = None, Electric_Range = None \<rparr>"

definition ex_r3 :: row where
  "ex_r3 = \<lparr> Model_Year = Some 2021, Electric_Vehicle_Type = Some ''BEV'',
             City = Some ''Seattle'', Make = Some ''Tesla'',
             Base_MSRP = Some 42000, Electric_Range = None \<rparr>"

definition ex_df :: "row list" where
  "ex_df = [ex_r1, ex_r2, ex_r3]"

definition ex_fs :: filter_state where
  "ex_fs = \<lparr> tahun_range = (2020, 2021), selected_types = [''BEV'', ''PHEV''],
             selected_cities = [], selected_makes = [] \<rparr>"

text \<open>Raw rows as \<open>read_csv\<close> may deliver them, and a number parser for their texts.\<close>

definition ex_parse :: "string \<Rightarrow> rat option" where
  "ex_parse s = (if s = ''2021'' then Some 2021 else None)"

definition ex_raw1 :: raw_row where
  "ex_raw1 = \<lparr> raw_Model_Year = Number 2020, raw_Electric_Vehicle_Type = Some ''BEV'',
               raw_City = Some ''Seattle'', raw_Make = Some ''Tesla'',
               raw_Base_MSRP = Number 40000, raw_Electric_Range = Blank \<rparr>"

definition ex_raw2 :: raw_row where
  "ex_raw2 = \<lparr> raw_Model_Year = Text ''unknown'', raw_Electric_Vehicle_Type = Some ''PHEV'',
               raw_City = Some ''Bellevue'', raw_Make = Some ''Toyota'',
               raw_Base_MSRP = Blank, raw_Electric_Range = Blank \<rparr>"

definition ex_raw3 :: raw_row where
  "ex_raw3 = \<lparr> raw_Model_Year = Text ''2021'', raw_Electric_Vehicle_Type = Some ''BEV'',
               raw_City = Some ''Seattle'', raw_Make = Some ''Tesla'',
               raw_Base_MSRP = Text ''n/a'', raw_Electric_Range = Blank \<rparr>"

text \<open>A machine on which the data file is readable, and one on which it holds no valid year.\<close>

definition ex_read_csv :: "string \<Rightarrow> error + raw_row list" where
  "ex_read_csv path =
     (if path = ''Electric_Vehicle_Population_Data.csv''
      then Inr [ex_raw1, ex_raw2, ex_raw3] else Inl FileNotFoundError)"


section \<open>Facts about the table operations\<close>

lemma set_dropna: "set (dropna s) = {x. Some x \<in> set s}"
  by (induction s rule: dropna.induct) auto

lemma length_dropna: "length (dropna s) = length (filter (\<lambda>c. c \<noteq> None) s)"
  by (induction s rule: dropna.induct) auto

lemma count_list_dropna: "count_list (dropna s) k = length (filter (\<lambda>c. c = Some k) s)"
  by (induction s rule: dropna.induct) auto

lemma set_unique: "set (unique xs) = set xs"
  by (induction xs rule: unique.induct) auto

lemma distinct_unique: "distinct (unique xs)"
  by (induction xs rule: unique.induct) (auto simp: set_unique)

lemma sum_counts_unique: "sum_list (map (count_list xs) (unique xs)) = length xs"
proof -
  have "sum_list (map (count_list xs) (unique xs)) = sum (count_list xs) (set (unique xs))"
    by (rule sum_list_distinct_conv_sum_set) (rule distinct_unique)
  also have "\<dots> = length xs"
    by (simp add: set_unique sum_count_set)
  finally show ?thesis .
qed


lemma sum_list_insort_key: "sum_list (map f (insort_key g x xs)) = (f x :: nat) + sum_list (map f xs)"
  by (induction xs) auto

lemma sum_list_sort_key: "sum_list (map f (sort_key g xs)) = (sum_list (map f xs) :: nat)"
  by (induction xs) (auto simp: sum_list_insort_key)



lemma set_value_counts:
  "set (value_counts s) = {(k, length (filter (\<lambda>c. c = Some k) s)) | k. Some k \<in> set s}"
  by (auto simp: value_counts_def set_unique set_dropna count_list_dropna)

lemma distinct_keys_value_counts: "distinct (map fst (value_counts s))"
proof -
  have "distinct (map (\<lambda>k. (k, count_list (dropna s) k)) (unique (dropna s)))"
    by (simp add: distinct_map distinct_unique inj_on_def)
  then have d: "distinct (value_counts s)"
    by (simp add: value_counts_def Let_def)
  have "inj_on fst (set (value_counts s))"
    by (auto simp: inj_on_def set_value_counts)
  with d show ?thesis
    by (simp add: distinct_map)
qed


lemma sum_value_counts:
  "sum_list (map snd (value_counts s)) = length (filter (\<lambda>c. c \<noteq> None) s)"
proof -
  have "sum_list (map snd (value_counts s)) =
        sum_list (map snd (map (\<lambda>k. (k, count_list (dropna s) k)) (unique (dropna s))))"
    by (simp add: value_counts_def Let_def sum_list_sort_key)
  also have "\<dots> = sum_list (map (count_list (dropna s)) (unique (dropna s)))"
    by (simp add: comp_def)
  also have "\<dots> = length (dropna s)"
    by (rule sum_counts_unique)
  finally show ?thesis
    by (simp add: length_dropna)
qed








lemma set_value_counts_map:
  "set (value_counts (map f v)) =
     {(k, length (filter (\<lambda>r. f r = Some k) v)) | k. Some k \<in> f ` set v}"
proof -
  have "\<And>k. length (filter (\<lambda>c. c = Some k) (map f v)) = length (filter (\<lambda>r. f r = Some k) v)"
    by (simp add: filter_map comp_def)
  then show ?thesis
    by (simp add: set_value_counts)
qed

lemma year_in_range_conv:
  "year_in_range fs r \<longleftrightarrow>
     ge_num (Model_Year r) (fst (tahun_range fs)) \<and> le_num (Model_Year r) (snd (tahun_range fs))"
  by (simp add: year_in_range_def ge_num_def le_num_def split: option.splits)

lemma year_in_range_single:
  "fst (tahun_range fs) = snd (tahun_range fs) \<Longrightarrow>
     year_in_range fs r \<longleftrightarrow> Model_Year r = Some (of_int (fst (tahun_range fs)))"
  by (auto simp: year_in_range_def split: option.splits)

lemma df_filtered_filter: "df_filtered df fs = filter (satisfies fs) df"
  by (auto simp: df_filtered_def Let_def satisfies_def year_in_range_conv intro: filter_cong)

subsection \<open>Grouping\<close>

lemma set_groupby_size:
  "set (groupby_size ks) = {(k, length (filter (\<lambda>c. c = Some k) ks)) | k. Some k \<in> set ks}"
  by (auto simp: groupby_size_def Let_def set_unique set_dropna count_list_dropna)

lemma keys_groupby_size: "map fst (groupby_size ks) = sort (unique (dropna ks))"
  by (simp add: groupby_size_def Let_def comp_def)

lemma distinct_keys_groupby_size: "distinct (map fst (groupby_size ks))"
  by (simp add: keys_groupby_size distinct_unique)

lemma group_key_Some:
  "group_key r = Some (y, c) \<longleftrightarrow> Model_Year r = Some y \<and> City r = Some c"
  by (simp add: group_key_def split: option.splits)

lemma growth_keys: "map (\<lambda>(y, c, n). (y, c)) (growth v) = map fst (groupby_size (map group_key (df_top10 v)))"
  by (simp add: growth_def comp_def case_prod_unfold)

lemma set_growth:
  "set (growth v) =
     {(y, c, length (filter (\<lambda>r. Model_Year r = Some y \<and> City r = Some c) v)) | y c.
        c \<in> set (top10_cities_main v) \<and> (\<exists>r \<in> set v. Model_Year r = Some y \<and> City r = Some c)}"
  (is "?L = ?R")
proof -
  have len: "length (filter (\<lambda>k. k = Some (y, c)) (map group_key (df_top10 v))) =
        length (filter (\<lambda>r. Model_Year r = Some y \<and> City r = Some c) v)"
    if "c \<in> set (top10_cities_main v)" for y c
  proof -
    have "filter (\<lambda>r. group_key r = Some (y, c)) (df_top10 v) =
          filter (\<lambda>r. Model_Year r = Some y \<and> City r = Some c) v"
      unfolding df_top10_def filter_filter
      by (rule filter_cong) (auto simp: group_key_Some isin_def that)
    then show ?thesis
      by (simp add: filter_map comp_def)
  qed
  have mem: "Some (y, c) \<in> set (map group_key (df_top10 v)) \<longleftrightarrow>
        c \<in> set (top10_cities_main v) \<and> (\<exists>r \<in> set v. Model_Year r = Some y \<and> City r = Some c)"
    for y c
  proof
    assume "Some (y, c) \<in> set (map group_key (df_top10 v))"
    then obtain r where r: "r \<in> set (df_top10 v)" and k: "group_key r = Some (y, c)"
      by auto
    from k have yc: "Model_Year r = Some y" "City r = Some c"
      by (simp_all add: group_key_Some)
    from r have "r \<in> set v" "isin (City r) (top10_cities_main v)"
      by (simp_all add: df_top10_def)
    with yc show "c \<in> set (top10_cities_main v) \<and> (\<exists>r \<in> set v. Model_Year r = Some y \<and> City r = Some c)"
      by (auto simp: isin_def)
  next
    assume a: "c \<in> set (top10_cities_main v) \<and> (\<exists>r \<in> set v. Model_Year r = Some y \<and> City r = Some c)"
    then obtain r where r: "r \<in> set v" "Model_Year r = Some y" "City r = Some c" by blast
    with a have "r \<in> set (df_top10 v)" by (simp add: df_top10_def isin_def)
    moreover from r have "group_key r = Some (y, c)" by (simp add: group_key_Some)
    ultimately show "Some (y, c) \<in> set (map group_key (df_top10 v))"
      by (metis image_eqI set_map)
  qed
  have "?L = (\<lambda>((y, c), n). (y, c, n)) ` set (groupby_size (map group_key (df_top10 v)))"
    by (simp add: growth_def)
  also have "\<dots> = {(y, c, length (filter (\<lambda>k. k = Some (y, c)) (map group_key (df_top10 v)))) | y c.
        Some (y, c) \<in> set (map group_key (df_top10 v))}"
    unfolding set_groupby_size by (auto simp: image_iff) 
  also have "\<dots> = ?R"
    using len mem by (auto simp del: set_map)
  finally show ?thesis .
qed

subsection \<open>Loading\<close>

lemma to_numeric_simps:
  "to_numeric parse Blank = None"
  "to_numeric parse (Number x) = Some x"
  "to_numeric parse (Text s) = parse s"
  by (simp_all add: to_numeric_def)

lemma load_data_Inr:
  "load_data read_csv parse path = Inr ds \<longleftrightarrow>
     (\<exists>raw. read_csv path = Inr raw \<and> ds = dropna_Model_Year (map (coerce_row parse) raw))"
  by (auto simp: load_data_def split: sum.splits)


subsection \<open>The box plot loop\<close>

lemma insort_map_Some: "insort (Some x) (map Some ys) = map Some (insort x ys)"
  by (induction ys) auto

lemma sort_map_Some: "sort (map Some ys) = map Some (sort ys)"
  by (induction ys) (auto simp: insort_map_Some)

lemma map_Some_dropna: "None \<notin> set xs \<Longrightarrow> map Some (dropna xs) = xs"
  by (induction xs rule: dropna.induct) auto

lemma sorted_py_typed:
  assumes "None \<notin> set xs"
  shows "sorted_py xs = Inr (map Some (sort (dropna xs)))"
proof -
  have "sort xs = sort (map Some (dropna xs))"
    using assms by (simp add: map_Some_dropna)
  then show ?thesis
    using assms by (simp add: sorted_py_def sort_map_Some)
qed

lemma df_filtered_typed: "r \<in> set (df_filtered df fs) \<Longrightarrow> Electric_Vehicle_Type r \<noteq> None"
  by (auto simp: df_filtered_filter satisfies_def isin_def split: option.splits)

lemma eq_cell_Some: "eq_cell c (Some t) \<longleftrightarrow> c = Some t"
  by (auto simp: eq_cell_def split: option.splits)

lemma fig_box_type_typed:
  assumes "\<forall>r \<in> set v. Electric_Vehicle_Type r \<noteq> None"
  shows "fig_box_type v =
     Inr (map (\<lambda>t. (Some t, map Base_MSRP
                        (filter (\<lambda>r. Electric_Vehicle_Type r = Some t \<and> Base_MSRP r \<noteq> None) v)))
            (sort (dropna (unique (map Electric_Vehicle_Type (df_type_price v))))))"
proof -
  have "None \<notin> set (unique (map Electric_Vehicle_Type (df_type_price v)))"
    using assms by (auto simp: set_unique df_type_price_def)
  then have s: "sorted_py (unique (map Electric_Vehicle_Type (df_type_price v))) =
      Inr (map Some (sort (dropna (unique (map Electric_Vehicle_Type (df_type_price v))))))"
    by (rule sorted_py_typed)
  have f: "\<And>t. filter (\<lambda>r. eq_cell (Electric_Vehicle_Type r) (Some t)) (df_type_price v) =
      filter (\<lambda>r. Electric_Vehicle_Type r = Some t \<and> Base_MSRP r \<noteq> None) v"
    unfolding df_type_price_def filter_filter eq_cell_Some by (rule filter_cong) auto
  show ?thesis
    by (simp add: fig_box_type_def s comp_def f)
qed

lemma distinct_dropna: "distinct xs \<Longrightarrow> distinct (dropna xs)"
  by (induction xs rule: dropna.induct) (auto simp: set_dropna)

lemma box_categories:
  fixes v :: "row list"
  defines "cats \<equiv> sort (dropna (unique (map Electric_Vehicle_Type (df_type_price v))))"
  shows "sorted cats" and "distinct cats"
    and "set cats = {t. \<exists>r \<in> set v. Electric_Vehicle_Type r = Some t \<and> Base_MSRP r \<noteq> None}"
proof -
  show "sorted cats" by (simp add: cats_def)
  show "distinct cats" by (simp add: cats_def distinct_dropna distinct_unique)
  show "set cats = {t. \<exists>r \<in> set v. Electric_Vehicle_Type r = Some t \<and> Base_MSRP r \<noteq> None}"
    by (auto simp: cats_def set_dropna set_unique df_type_price_def image_iff) 
qed

section \<open>The claims\<close>

text \<open>
  C1. The filtered view is the order-preserving subsequence of the rows that satisfy the
  conjunction of section 4.2: year inside the inclusive range, type among the selected
  types, city among the selected cities when some are selected, make among the selected
  makes when some are selected. With no type selected the view is empty; with equal range
  ends the year condition is equality with that year.
\<close>

theorem apply_filter:
  "df_filtered df fs = filter (satisfies fs) df
   \<and> (selected_types fs = [] \<longrightarrow> df_filtered df fs = [])
   \<and> (fst (tahun_range fs) = snd (tahun_range fs) \<longrightarrow>
        df_filtered df fs =
          filter (\<lambda>r. Model_Year r = Some (of_int (fst (tahun_range fs))) \<and>
                       isin (Electric_Vehicle_Type r) (selected_types fs) \<and>
                       (selected_cities fs \<noteq> [] \<longrightarrow> isin (City r) (selected_cities fs)) \<and>
                       (selected_makes fs \<noteq> [] \<longrightarrow> isin (Make r) (selected_makes fs))) df)"
proof (intro conjI impI)
  show "df_filtered df fs = filter (satisfies fs) df" by (rule df_filtered_filter)
next
  assume "selected_types fs = []"
  then have "\<And>r. \<not> satisfies fs r"
    by (simp add: satisfies_def isin_def split: option.splits)
  then show "df_filtered df fs = []"
    by (simp add: df_filtered_filter)
next
  assume eq: "fst (tahun_range fs) = snd (tahun_range fs)"
  have "satisfies fs =
          (\<lambda>r. Model_Year r = Some (of_int (fst (tahun_range fs))) \<and>
                isin (Electric_Vehicle_Type r) (selected_types fs) \<and>
                (selected_cities fs \<noteq> [] \<longrightarrow> isin (City r) (selected_cities fs)) \<and>
                (selected_makes fs \<noteq> [] \<longrightarrow> isin (Make r) (selected_makes fs)))"
    unfolding satisfies_def year_in_range_single [OF eq] ..
  then show "df_filtered df fs =
          filter (\<lambda>r. Model_Year r = Some (of_int (fst (tahun_range fs))) \<and>
                       isin (Electric_Vehicle_Type r) (selected_types fs) \<and>
                       (selected_cities fs \<noteq> [] \<longrightarrow> isin (City r) (selected_cities fs)) \<and>
                       (selected_makes fs \<noteq> [] \<longrightarrow> isin (Make r) (selected_makes fs))) df"
    by (simp only: df_filtered_filter)
qed

theorem apply_filter_witness:
  "df_filtered ex_df (ex_fs\<lparr>tahun_range := (2020, 2020), selected_cities := [''Seattle'']\<rparr>) = [ex_r1]
   \<and> df_filtered ex_df (ex_fs\<lparr>selected_types := []\<rparr>) = []
   \<and> df_filtered ex_df ex_fs = ex_df"
  using apply_filter [of ex_df "ex_fs\<lparr>tahun_range := (2020, 2020), selected_cities := [''Seattle'']\<rparr>"]
    apply_filter [of ex_df "ex_fs\<lparr>selected_types := []\<rparr>"]
    apply_filter [of ex_df ex_fs]
  by (simp add: ex_df_def ex_fs_def ex_r1_def ex_r2_def ex_r3_def satisfies_def
      year_in_range_def isin_def)



text \<open>
  C6. The type distribution (line 187) is a plain value count: one entry per distinct
  non-missing type with the number of its rows, and the counts add up exactly to the
  number of rows whose type is not missing.
\<close>

theorem distribution_counts:
  "sum_list (map snd (type_counts v)) = length (filter (\<lambda>r. Electric_Vehicle_Type r \<noteq> None) v)
   \<and> distinct (map fst (type_counts v))
   \<and> (\<forall>k. Some k \<in> Electric_Vehicle_Type ` set v \<longrightarrow>
         (k, length (filter (\<lambda>r. Electric_Vehicle_Type r = Some k) v)) \<in> set (type_counts v))
   \<and> (\<forall>(k, c) \<in> set (type_counts v).
         c = length (filter (\<lambda>r. Electric_Vehicle_Type r = Some k) v) \<and> 0 < c)"
proof (intro conjI)
  have "sum_list (map snd (type_counts v)) =
        length (filter (\<lambda>c. c \<noteq> None) (map Electric_Vehicle_Type v))"
    unfolding type_counts_def by (rule sum_value_counts)
  then show "sum_list (map snd (type_counts v)) =
        length (filter (\<lambda>r. Electric_Vehicle_Type r \<noteq> None) v)"
    by (simp add: filter_map comp_def)
  show "distinct (map fst (type_counts v))"
    unfolding type_counts_def by (rule distinct_keys_value_counts)
  show "\<forall>k. Some k \<in> Electric_Vehicle_Type ` set v \<longrightarrow>
         (k, length (filter (\<lambda>r. Electric_Vehicle_Type r = Some k) v)) \<in> set (type_counts v)"
    by (simp add: type_counts_def set_value_counts_map)
  show "\<forall>(k, c) \<in> set (type_counts v).
         c = length (filter (\<lambda>r. Electric_Vehicle_Type r = Some k) v) \<and> 0 < c"
    by (auto simp: type_counts_def set_value_counts_map filter_empty_conv)
qed

theorem distribution_counts_witness:
  "type_counts ex_df = [(''BEV'', 2), (''PHEV'', 1)]
   \<and> sum_list (map snd (type_counts ex_df)) = 3"
  using distribution_counts [of ex_df]
  by (simp add: type_counts_def value_counts_def ex_df_def ex_r1_def ex_r2_def ex_r3_def)

text \<open>
  C8. On a view without rows every aggregation returns its empty result, and the box
  plot loop returns normally.
\<close>

theorem aggregations_empty:
  "city_counts [] = [] \<and> makes_counts [] = [] \<and> growth [] = [] \<and> type_counts [] = []
   \<and> fig_box_type [] = Inr []"
  by (simp add: city_counts_def makes_counts_def growth_def type_counts_def fig_box_type_def
      nlargest_def value_counts_def groupby_size_def df_top10_def df_type_price_def sorted_py_def)

text \<open>
  C2. The growth table (lines 139-148) is the group count over the rows of the view whose
  city is in the top-10 ranking of that same view. Every city in it is one of the top
  cities, every count is the number of rows of the view with that year and city and is
  positive, a (year, city) pair appears exactly when a row with a top city has it (so
  pairs without rows are absent, not zero), and no pair appears twice.
\<close>

theorem growth_series:
  "(\<forall>(y, c, n) \<in> set (growth v).
       c \<in> set (top10_cities_main v) \<and> 0 < n \<and>
       n = length (filter (\<lambda>r. Model_Year r = Some y \<and> City r = Some c) v))
   \<and> (\<forall>y c. (\<exists>n. (y, c, n) \<in> set (growth v)) \<longleftrightarrow>
         c \<in> set (top10_cities_main v) \<and> (\<exists>r \<in> set v. Model_Year r = Some y \<and> City r = Some c))
   \<and> distinct (map (\<lambda>(y, c, n). (y, c)) (growth v))
   \<and> top10_cities_main v = map fst (nlargest 10 (value_counts (map City v)))
   \<and> growth v = map (\<lambda>((y, c), n). (y, c, n))
        (groupby_size (map group_key (filter (\<lambda>r. isin (City r) (top10_cities_main v)) v)))"
proof (intro conjI)
  show "\<forall>(y, c, n) \<in> set (growth v).
       c \<in> set (top10_cities_main v) \<and> 0 < n \<and>
       n = length (filter (\<lambda>r. Model_Year r = Some y \<and> City r = Some c) v)"
    unfolding set_growth by (auto simp: filter_empty_conv)
  show "\<forall>y c. (\<exists>n. (y, c, n) \<in> set (growth v)) \<longleftrightarrow>
         c \<in> set (top10_cities_main v) \<and> (\<exists>r \<in> set v. Model_Year r = Some y \<and> City r = Some c)"
    unfolding set_growth by auto
  show "distinct (map (\<lambda>(y, c, n). (y, c)) (growth v))"
    by (simp only: growth_keys distinct_keys_groupby_size)
  show "top10_cities_main v = map fst (nlargest 10 (value_counts (map City v)))"
    by (simp add: top10_cities_main_def)
  show "growth v = map (\<lambda>((y, c), n). (y, c, n))
        (groupby_size (map group_key (filter (\<lambda>r. isin (City r) (top10_cities_main v)) v)))"
    by (simp add: growth_def df_top10_def)
qed

theorem growth_series_witness:
  "growth ex_df = [(2020, ''Bellevue'', 1), (2020, ''Seattle'', 1), (2021, ''Seattle'', 1)]
   \<and> top10_cities_main ex_df = [''Seattle'', ''Bellevue'']"
  using growth_series [of ex_df]
  by (simp add: growth_def groupby_size_def df_top10_def top10_cities_main_def nlargest_def
      value_counts_def group_key_def isin_def ex_df_def ex_r1_def ex_r2_def ex_r3_def)

text \<open>
  C4. When \<open>load_data\<close> returns, the frame was read, the three numeric columns hold
  what \<open>to_numeric\<close> gives (a text that does not parse is missing, not an error), the
  result is the coerced rows in file order without exactly those whose year is missing,
  and every returned row has a year.
\<close>

theorem load_data_dataset:
  assumes "load_data read_csv parse path = Inr ds"
  shows "\<exists>raw. read_csv path = Inr raw
     \<and> ds = filter (\<lambda>r. Model_Year r \<noteq> None) (map (coerce_row parse) raw)
     \<and> (\<forall>x \<in> set raw.
           Model_Year (coerce_row parse x) = to_numeric parse (raw_Model_Year x) \<and>
           Base_MSRP (coerce_row parse x) = to_numeric parse (raw_Base_MSRP x) \<and>
           Electric_Range (coerce_row parse x) = to_numeric parse (raw_Electric_Range x))
     \<and> (\<forall>s. parse s = None \<longrightarrow> to_numeric parse (Text s) = None)
     \<and> (\<forall>x \<in> set raw. coerce_row parse x \<in> set ds \<longleftrightarrow> to_numeric parse (raw_Model_Year x) \<noteq> None)
     \<and> length ds = length (filter (\<lambda>x. to_numeric parse (raw_Model_Year x) \<noteq> None) raw)
     \<and> (\<forall>r \<in> set ds. \<exists>y. Model_Year r = Some y)"
proof -
  from assms obtain raw where raw: "read_csv path = Inr raw"
    and ds: "ds = dropna_Model_Year (map (coerce_row parse) raw)"
    by (auto simp: load_data_Inr)
  have my: "\<And>x. Model_Year (coerce_row parse x) = to_numeric parse (raw_Model_Year x)"
    by (simp add: coerce_row_def)
  have "length ds = length (filter (\<lambda>x. to_numeric parse (raw_Model_Year x) \<noteq> None) raw)"
    by (simp add: ds dropna_Model_Year_def filter_map comp_def my)
  moreover have "\<forall>x \<in> set raw. coerce_row parse x \<in> set ds \<longleftrightarrow> to_numeric parse (raw_Model_Year x) \<noteq> None"
    by (auto simp: ds dropna_Model_Year_def my)
  moreover have "\<forall>r \<in> set ds. \<exists>y. Model_Year r = Some y"
    by (auto simp: ds dropna_Model_Year_def)
  moreover have "\<forall>x \<in> set raw.
           Model_Year (coerce_row parse x) = to_numeric parse (raw_Model_Year x) \<and>
           Base_MSRP (coerce_row parse x) = to_numeric parse (raw_Base_MSRP x) \<and>
           Electric_Range (coerce_row parse x) = to_numeric parse (raw_Electric_Range x)"
    by (simp add: coerce_row_def)
  moreover have "\<forall>s. parse s = None \<longrightarrow> to_numeric parse (Text s) = None"
    by (simp add: to_numeric_simps)
  moreover have "ds = filter (\<lambda>r. Model_Year r \<noteq> None) (map (coerce_row parse) raw)"
    by (simp add: ds dropna_Model_Year_def)
  ultimately show ?thesis using raw by blast
qed

theorem load_data_dataset_witness:
  "load_data ex_read_csv ex_parse ''Electric_Vehicle_Population_Data.csv'' =
     Inr [ex_r1, ex_r3\<lparr>Base_MSRP := None\<rparr>]
   \<and> (\<exists>raw. ex_read_csv ''Electric_Vehicle_Population_Data.csv'' = Inr raw \<and> length raw = 3)"
proof -
  have l: "load_data ex_read_csv ex_parse ''Electric_Vehicle_Population_Data.csv'' =
     Inr [ex_r1, ex_r3\<lparr>Base_MSRP := None\<rparr>]"
    by (simp add: load_data_def ex_read_csv_def ex_parse_def dropna_Model_Year_def coerce_row_def
        to_numeric_def ex_raw1_def ex_raw2_def ex_raw3_def ex_r1_def ex_r3_def)
  from load_data_dataset [OF l] show ?thesis
    using l by (auto simp: ex_read_csv_def)
qed




text \<open>
  C7. On a filtered view the box plot loop (lines 335-345) returns one trace per type,
  the types in ascending order without repetition, each trace holding in view order the
  MSRP cells of the rows of that type whose MSRP is present; the types are those of the
  rows with an MSRP, and a row without MSRP is in no trace.
\<close>

theorem numeric_groups:
  "\<exists>cats. fig_box_type (df_filtered df fs) =
       Inr (map (\<lambda>t. (Some t, map Base_MSRP
                          (filter (\<lambda>r. Electric_Vehicle_Type r = Some t \<and> Base_MSRP r \<noteq> None)
                                  (df_filtered df fs)))) cats)
     \<and> sorted cats \<and> distinct cats
     \<and> set cats = {t. \<exists>r \<in> set (df_filtered df fs). Electric_Vehicle_Type r = Some t \<and> Base_MSRP r \<noteq> None}
     \<and> (\<forall>r \<in> set (df_filtered df fs). Base_MSRP r = None \<longrightarrow>
           (\<forall>t \<in> set cats. r \<notin> set (filter (\<lambda>r. Electric_Vehicle_Type r = Some t \<and> Base_MSRP r \<noteq> None)
                                            (df_filtered df fs))))"
proof -
  let ?v = "df_filtered df fs"
  let ?cats = "sort (dropna (unique (map Electric_Vehicle_Type (df_type_price ?v))))"
  have "\<forall>r \<in> set ?v. Electric_Vehicle_Type r \<noteq> None"
    using df_filtered_typed by blast
  then have "fig_box_type ?v =
       Inr (map (\<lambda>t. (Some t, map Base_MSRP
                          (filter (\<lambda>r. Electric_Vehicle_Type r = Some t \<and> Base_MSRP r \<noteq> None) ?v))) ?cats)"
    by (rule fig_box_type_typed)
  moreover have "sorted ?cats" "distinct ?cats"
    "set ?cats = {t. \<exists>r \<in> set ?v. Electric_Vehicle_Type r = Some t \<and> Base_MSRP r \<noteq> None}"
    by (rule box_categories)+
  moreover have "\<forall>r \<in> set ?v. Base_MSRP r = None \<longrightarrow>
           (\<forall>t \<in> set ?cats. r \<notin> set (filter (\<lambda>r. Electric_Vehicle_Type r = Some t \<and> Base_MSRP r \<noteq> None) ?v))"
    by simp
  ultimately show ?thesis by blast
qed

theorem numeric_groups_witness:
  "fig_box_type (df_filtered ex_df ex_fs) = Inr [(Some ''BEV'', [Some 40000, Some 42000])]"
  using numeric_groups [of ex_df ex_fs]
  by (simp add: fig_box_type_def df_filtered_def df_type_price_def sorted_py_def eq_cell_def
      ge_num_def le_num_def isin_def ex_df_def ex_fs_def ex_r1_def ex_r2_def ex_r3_def)

text \<open>
  C10. The trace names of the box plot are exactly the types that occur on a row with an
  MSRP; no trace is empty or holds a missing cell, and a type whose rows all lack the
  MSRP has no trace.
\<close>

theorem numeric_groups_categories:
  "\<exists>res. fig_box_type (df_filtered df fs) = Inr res
     \<and> fst ` set res =
         {Some t | t. \<exists>r \<in> set (df_filtered df fs). Electric_Vehicle_Type r = Some t \<and> Base_MSRP r \<noteq> None}
     \<and> distinct (map fst res)
     \<and> (\<forall>(c, ys) \<in> set res. ys \<noteq> [] \<and> None \<notin> set ys)
     \<and> (\<forall>t. (\<forall>r \<in> set (df_filtered df fs). Electric_Vehicle_Type r = Some t \<longrightarrow> Base_MSRP r = None)
            \<longrightarrow> Some t \<notin> fst ` set res)"
proof -
  let ?v = "df_filtered df fs"
  let ?cats = "sort (dropna (unique (map Electric_Vehicle_Type (df_type_price ?v))))"
  let ?part = "\<lambda>t. map Base_MSRP (filter (\<lambda>r. Electric_Vehicle_Type r = Some t \<and> Base_MSRP r \<noteq> None) ?v)"
  let ?res = "map (\<lambda>t. (Some t, ?part t)) ?cats"
  have typed: "\<forall>r \<in> set ?v. Electric_Vehicle_Type r \<noteq> None"
    using df_filtered_typed by blast
  have res: "fig_box_type ?v = Inr ?res"
    using typed by (rule fig_box_type_typed)
  have cats: "set ?cats = {t. \<exists>r \<in> set ?v. Electric_Vehicle_Type r = Some t \<and> Base_MSRP r \<noteq> None}"
    by (rule box_categories)
  have dist: "distinct ?cats" by (rule box_categories)
  have keys: "map fst ?res = map Some ?cats"
    by (simp add: comp_def)
  have k: "fst ` set ?res = Some ` set ?cats"
    using keys by (metis set_map)
  have 1: "fst ` set ?res =
         {Some t | t. \<exists>r \<in> set ?v. Electric_Vehicle_Type r = Some t \<and> Base_MSRP r \<noteq> None}"
    unfolding k cats by auto
  have 2: "distinct (map fst ?res)"
    unfolding keys using dist by (simp add: distinct_map)
  have 3: "\<forall>(c, ys) \<in> set ?res. ys \<noteq> [] \<and> None \<notin> set ys"
  proof (clarify, rule conjI)
    fix c ys assume "(c, ys) \<in> set ?res"
    then obtain t where t: "t \<in> set ?cats" and ys: "ys = ?part t" by auto
    from t cats obtain r where "r \<in> set ?v" "Electric_Vehicle_Type r = Some t" "Base_MSRP r \<noteq> None"
      by blast
    then show "ys \<noteq> []" by (auto simp: ys filter_empty_conv)
    show "None \<notin> set ys" by (auto simp: ys)
  qed
  have 4: "\<forall>t. (\<forall>r \<in> set ?v. Electric_Vehicle_Type r = Some t \<longrightarrow> Base_MSRP r = None)
            \<longrightarrow> Some t \<notin> fst ` set ?res"
    unfolding 1 by auto
  from res 1 2 3 4 show ?thesis by blast
qed

theorem numeric_groups_categories_witness:
  "fig_box_type (df_filtered ex_df ex_fs) = Inr [(Some ''BEV'', [Some 40000, Some 42000])]
   \<and> Electric_Vehicle_Type ex_r2 = Some ''PHEV'' \<and> Base_MSRP ex_r2 = None
   \<and> ex_r2 \<in> set (df_filtered ex_df ex_fs)"
  using numeric_groups_categories [of ex_df ex_fs]
  by (simp add: fig_box_type_def df_filtered_def df_type_price_def sorted_py_def eq_cell_def
      ge_num_def le_num_def isin_def ex_df_def ex_fs_def ex_r1_def ex_r2_def ex_r3_def)

end
